theory Spec2Isabelle
  imports Main "HOL-Library.Product_Lexorder" "HOL-Library.Multiset"
begin

section \<open>Errors\<close>

text \<open>
  The exceptions raised by the Python sources (\<open>ValueError\<close>, \<open>TypeError\<close>,
  \<open>AssertionError\<close>, \<open>AttributeError\<close>) and the failures named by the specification of
  the frame stack and of the pass pipeline.
\<close>

datatype error =
    ValueError
  | TypeError
  | AssertionError
  | AttributeError
  | FrameStackError
  | UndefinedOutputError
  | NotInDataflowBlockError
  | ShapeMismatchError
  | MissingReturnError
  | IncompleteBranchError
  | PassDependencyError
  | PassCycleError
  | PassExecutionError

section \<open>Pass registration (relax/transform/transform.py)\<close>

subsection \<open>Python values seen by the decorators\<close>

text \<open>
  \<open>tvm.transform.PassInfo(opt_level, fname, required, traceable)\<close>: the arguments in the
  order of the constructor call.
\<close>

datatype PassInfo =
  PassInfo (info_opt_level: int) (info_name: string) (info_required: "string list")
    (info_traceable: bool)

text \<open>
  The value given as \<open>pass_func\<close> / \<open>pass_arg\<close>. A plain function and a lambda are both of
  \<open>types.FunctionType\<close> (\<open>types.LambdaType\<close> is the same type); a lambda is a function
  whose \<open>__name__\<close> is \<open><lambda>\<close>. A class carries its \<open>__name__\<close> and its constructor,
  which may raise (\<open>inspect.isclass\<close> holds of it alone). Every other value is
  described by what the code asks of it: its truth value and its \<open>__name__\<close>
  attribute, when it has one; it is neither a class nor of \<open>types.FunctionType\<close>.
  \<open>None\<close> is such a value.
\<close>

datatype ('f, 'a, 'i) py_object =
    PyFunction string 'f
  | PyClass string "'a \<Rightarrow> error + 'i"
  | PyOther bool "string option"

definition PyLambda :: "'f \<Rightarrow> ('f, 'a, 'i) py_object" where
  "PyLambda f = PyFunction ''<lambda>'' f"

definition PyNone :: "('f, 'a, 'i) py_object" where
  "PyNone = PyOther False None"

text \<open>\<open>if pass_func:\<close>\<close>

fun truthy :: "('f, 'a, 'i) py_object \<Rightarrow> bool" where
  "truthy (PyFunction n f) = True"
| "truthy (PyClass n c) = True"
| "truthy (PyOther b n) = b"

text \<open>\<open>pass_arg.__name__\<close>\<close>

fun dunder_name :: "('f, 'a, 'i) py_object \<Rightarrow> error + string" where
  "dunder_name (PyFunction n f) = Inr n"
| "dunder_name (PyClass n c) = Inr n"
| "dunder_name (PyOther b None) = Inl AttributeError"
| "dunder_name (PyOther b (Some n)) = Inr n"

text \<open>
  The \<open>name\<close> argument is \<open>None\<close> or a string; \<open>name if name else ...\<close> takes it when it is
  a non-empty string.
\<close>

fun name_given :: "string option \<Rightarrow> bool" where
  "name_given None = False"
| "name_given (Some n) = (n \<noteq> [])"

text \<open>
  The \<open>required\<close> argument: \<open>None\<close>, a list, a tuple, or a value of another type, of which
  the code only asks the truth value.
\<close>

datatype py_required =
    ReqNone
  | ReqList "string list"
  | ReqTuple "string list"
  | ReqOther bool

text \<open>\<open>required = required if required else []\<close>\<close>

fun required_or_empty :: "py_required \<Rightarrow> py_required" where
  "required_or_empty ReqNone = ReqList []"
| "required_or_empty (ReqList xs) = ReqList xs"
| "required_or_empty (ReqTuple xs) = (if xs = [] then ReqList [] else ReqTuple xs)"
| "required_or_empty (ReqOther b) = (if b then ReqOther b else ReqList [])"

text \<open>\<open>isinstance(required, (list, tuple))\<close>\<close>

fun is_list_or_tuple :: "py_required \<Rightarrow> bool" where
  "is_list_or_tuple (ReqList xs) = True"
| "is_list_or_tuple (ReqTuple xs) = True"
| "is_list_or_tuple _ = False"

text \<open>The names a list or tuple holds, as \<open>PassInfo\<close> receives them.\<close>

fun required_names :: "py_required \<Rightarrow> string list" where
  "required_names (ReqList xs) = xs"
| "required_names (ReqTuple xs) = xs"
| "required_names _ = []"

subsection \<open>Pass objects\<close>

text \<open>
  The callable a pass object holds: the user's function itself, or the closure
  \<open>_pass_func\<close> of the class wrapper, which calls \<open>inst.transform_function\<close>
  (\<open>inst.transform_dataflowblock\<close>) on the instance it captured.
\<close>

datatype ('f, 'i) pass_callable =
    UserFunction 'f
  | InstanceMethod 'i

text \<open>
  The two registered object types, \<open>relax.FunctionPass\<close> and \<open>relax.DataflowBlockPass\<close>,
  each a \<open>tvm.ir.transform.Pass\<close> with its \<open>info\<close>.
\<close>

datatype ('f, 'i) Pass =
    FunctionPass "('f, 'i) pass_callable" PassInfo
  | DataflowBlockPass "('f, 'i) pass_callable" PassInfo

fun info_of_pass :: "('f, 'i) Pass \<Rightarrow> PassInfo" where
  "info_of_pass (FunctionPass f info) = info"
| "info_of_pass (DataflowBlockPass f info) = info"

fun is_FunctionPass :: "('f, 'i) Pass \<Rightarrow> bool" where
  "is_FunctionPass (FunctionPass f info) = True"
| "is_FunctionPass (DataflowBlockPass f info) = False"

fun is_DataflowBlockPass :: "('f, 'i) Pass \<Rightarrow> bool" where
  "is_DataflowBlockPass (DataflowBlockPass f info) = True"
| "is_DataflowBlockPass (FunctionPass f info) = False"

text \<open>
  Modelled from the spec: the native constructors \<open>_ffi_api.MakeFunctionPass\<close> and
  \<open>_ffi_api.MakeDataflowBlockPass\<close> are not part of the Python sources; by the docstrings
  of \<open>function_pass\<close> and \<open>dataflowblock_pass\<close> they return a new \<open>FunctionPass\<close>
  (\<open>DataflowBlockPass\<close>) holding the callable and the \<open>PassInfo\<close>.
\<close>

definition MakeFunctionPass :: "('f, 'i) pass_callable \<Rightarrow> PassInfo \<Rightarrow> ('f, 'i) Pass" where
  "MakeFunctionPass f info = FunctionPass f info"

definition MakeDataflowBlockPass :: "('f, 'i) pass_callable \<Rightarrow> PassInfo \<Rightarrow> ('f, 'i) Pass" where
  "MakeDataflowBlockPass f info = DataflowBlockPass f info"

text \<open>
  The classes \<open>PyFunctionPass\<close> and \<open>PyDataflowBlockPass\<close> that
  \<open>_wrap_class_function_pass\<close> and \<open>_wrap_class_dataflowblock_pass\<close> return: a class, not
  an instance. It keeps \<open>pass_cls\<close> and \<open>pass_info\<close>, and takes the \<open>__name__\<close> of
  \<open>pass_cls\<close>.
\<close>

datatype ('a, 'i) wrapper_class =
    PyFunctionPass string "'a \<Rightarrow> error + 'i" PassInfo
  | PyDataflowBlockPass string "'a \<Rightarrow> error + 'i" PassInfo

fun wrapper_info :: "('a, 'i) wrapper_class \<Rightarrow> PassInfo" where
  "wrapper_info (PyFunctionPass n pass_cls info) = info"
| "wrapper_info (PyDataflowBlockPass n pass_cls info) = info"

fun wrapper_name :: "('a, 'i) wrapper_class \<Rightarrow> string" where
  "wrapper_name (PyFunctionPass n pass_cls info) = n"
| "wrapper_name (PyDataflowBlockPass n pass_cls info) = n"

text \<open>
  \<open>__init__\<close> of the wrapper class: \<open>inst = pass_cls(*args, **kwargs)\<close>, which may raise,
  then the handle is made by the native constructor from \<open>_pass_func\<close> and \<open>pass_info\<close>.
\<close>

fun wrapper_init :: "('a, 'i) wrapper_class \<Rightarrow> 'a \<Rightarrow> error + ('f, 'i) Pass" where
  "wrapper_init (PyFunctionPass n pass_cls pass_info) args =
     (case pass_cls args of
        Inl e \<Rightarrow> Inl e
      | Inr inst \<Rightarrow> Inr (MakeFunctionPass (InstanceMethod inst) pass_info))"
| "wrapper_init (PyDataflowBlockPass n pass_cls pass_info) args =
     (case pass_cls args of
        Inl e \<Rightarrow> Inl e
      | Inr inst \<Rightarrow> Inr (MakeDataflowBlockPass (InstanceMethod inst) pass_info))"

text \<open>
  What decorating yields: a pass object (from a function) or a wrapper class (from a
  class). What the decorator functions return: that, or the closure itself.
\<close>

datatype ('f, 'a, 'i) decorated =
    PassObject "('f, 'i) Pass"
  | PassClass "('a, 'i) wrapper_class"

datatype ('f, 'a, 'i) pass_result =
    Decorated "('f, 'a, 'i) decorated"
  | Decorator "('f, 'a, 'i) py_object \<Rightarrow> error + ('f, 'a, 'i) decorated"

fun decorated_info :: "('f, 'a, 'i) decorated \<Rightarrow> PassInfo" where
  "decorated_info (PassObject p) = info_of_pass p"
| "decorated_info (PassClass c) = wrapper_info c"

subsection \<open>function_pass\<close>

definition wrap_class_function_pass ::
  "string \<Rightarrow> ('a \<Rightarrow> error + 'i) \<Rightarrow> PassInfo \<Rightarrow> ('a, 'i) wrapper_class" where
  "wrap_class_function_pass cls_name pass_cls pass_info = PyFunctionPass cls_name pass_cls pass_info"

text \<open>
  The inner function \<open>create_function_pass\<close>, with the variables it closes over
  (\<open>opt_level\<close>, \<open>name\<close>, \<open>required\<close>, \<open>traceable\<close>) as its first arguments. The name is
  looked up first (and \<open>__name__\<close> may be missing), then \<open>inspect.isclass\<close> decides, then
  the \<open>isinstance\<close> test for a function.
\<close>

definition create_function_pass ::
  "int \<Rightarrow> string option \<Rightarrow> py_required \<Rightarrow> bool \<Rightarrow> ('f, 'a, 'i) py_object
    \<Rightarrow> error + ('f, 'a, 'i) decorated" where
  "create_function_pass opt_level name required traceable pass_arg =
     (case (if name_given name then Inr (the name) else dunder_name pass_arg) of
        Inl e \<Rightarrow> Inl e
      | Inr fname \<Rightarrow>
          (let info = PassInfo opt_level fname (required_names required) traceable in
           case pass_arg of
             PyClass n pass_cls \<Rightarrow> Inr (PassClass (wrap_class_function_pass n pass_cls info))
           | PyOther b n \<Rightarrow> Inl TypeError
           | PyFunction n f \<Rightarrow> Inr (PassObject (MakeFunctionPass (UserFunction f) info))))"

definition function_pass ::
  "('f, 'a, 'i) py_object \<Rightarrow> int option \<Rightarrow> string option \<Rightarrow> py_required \<Rightarrow> bool
    \<Rightarrow> error + ('f, 'a, 'i) pass_result" where
  "function_pass pass_func opt_level name required traceable =
     (case opt_level of
        None \<Rightarrow> Inl ValueError
      | Some lvl \<Rightarrow>
          (let required = required_or_empty required in
           if \<not> is_list_or_tuple required then Inl TypeError
           else if truthy pass_func then
             (case create_function_pass lvl name required traceable pass_func of
                Inl e \<Rightarrow> Inl e
              | Inr d \<Rightarrow> Inr (Decorated d))
           else Inr (Decorator (create_function_pass lvl name required traceable))))"

subsection \<open>dataflowblock_pass\<close>

definition wrap_class_dataflowblock_pass ::
  "string \<Rightarrow> ('a \<Rightarrow> error + 'i) \<Rightarrow> PassInfo \<Rightarrow> ('a, 'i) wrapper_class" where
  "wrap_class_dataflowblock_pass cls_name pass_cls pass_info =
     PyDataflowBlockPass cls_name pass_cls pass_info"

definition create_dataflowblock_pass ::
  "int \<Rightarrow> string option \<Rightarrow> py_required \<Rightarrow> bool \<Rightarrow> ('f, 'a, 'i) py_object
    \<Rightarrow> error + ('f, 'a, 'i) decorated" where
  "create_dataflowblock_pass opt_level name required traceable pass_arg =
     (case (if name_given name then Inr (the name) else dunder_name pass_arg) of
        Inl e \<Rightarrow> Inl e
      | Inr fname \<Rightarrow>
          (let info = PassInfo opt_level fname (required_names required) traceable in
           case pass_arg of
             PyClass n pass_cls \<Rightarrow>
               Inr (PassClass (wrap_class_dataflowblock_pass n pass_cls info))
           | PyOther b n \<Rightarrow> Inl TypeError
           | PyFunction n f \<Rightarrow>
               Inr (PassObject (MakeDataflowBlockPass (UserFunction f) info))))"

definition dataflowblock_pass ::
  "('f, 'a, 'i) py_object \<Rightarrow> int option \<Rightarrow> string option \<Rightarrow> py_required \<Rightarrow> bool
    \<Rightarrow> error + ('f, 'a, 'i) pass_result" where
  "dataflowblock_pass pass_func opt_level name required traceable =
     (case opt_level of
        None \<Rightarrow> Inl ValueError
      | Some lvl \<Rightarrow>
          (let required = required_or_empty required in
           if \<not> is_list_or_tuple required then Inl TypeError
           else if truthy pass_func then
             (case create_dataflowblock_pass lvl name required traceable pass_func of
                Inl e \<Rightarrow> Inl e
              | Inr d \<Rightarrow> Inr (Decorated d))
           else Inr (Decorator (create_dataflowblock_pass lvl name required traceable))))"

subsection \<open>BindParams\<close>

text \<open>
  A value of the \<open>params\<close> dictionary: a \<open>numpy.ndarray\<close>, a \<open>tvm.runtime.NDArray\<close>, or a
  value of any other type.
\<close>

datatype ('n, 't, 'o) param_value =
    Numpy_ndarray 'n
  | TVM_NDArray 't
  | Other_value 'o

fun is_NDArray :: "('n, 't, 'o) param_value \<Rightarrow> bool" where
  "is_NDArray (TVM_NDArray a) = True"
| "is_NDArray _ = False"

text \<open>
  A Python dictionary keeps its keys in insertion order; \<open>d[k] = v\<close> replaces the value of
  a key that is present and appends a new key otherwise.
\<close>

fun dict_set :: "('k \<times> 'v) list \<Rightarrow> 'k \<Rightarrow> 'v \<Rightarrow> ('k \<times> 'v) list" where
  "dict_set [] k v = [(k, v)]"
| "dict_set ((k', v') # d) k v =
     (if k' = k then (k, v) # d else (k', v') # dict_set d k v)"

text \<open>
  The loop \<open>for k, v in params.items()\<close>, with \<open>tvm_params\<close> as accumulator. The
  conversion \<open>tvm.nd.array\<close> is a parameter, \<open>nd_array\<close>.
\<close>

fun bind_params_loop ::
  "('n \<Rightarrow> 't) \<Rightarrow> (string \<times> ('n, 't, 'o) param_value) list
    \<Rightarrow> (string \<times> ('n, 't, 'o) param_value) list
    \<Rightarrow> error + (string \<times> ('n, 't, 'o) param_value) list" where
  "bind_params_loop nd_array tvm_params [] = Inr tvm_params"
| "bind_params_loop nd_array tvm_params ((k, v) # items) =
     (let v = (case v of Numpy_ndarray a \<Rightarrow> TVM_NDArray (nd_array a) | _ \<Rightarrow> v) in
      if \<not> is_NDArray v then Inl AssertionError
      else bind_params_loop nd_array (dict_set tvm_params k v) items)"

text \<open>
  \<open>BindParams\<close>: the loop, then the native \<open>_ffi_api.BindParams(func_name, tvm_params)\<close>,
  a parameter here.
\<close>

definition BindParams ::
  "('n \<Rightarrow> 't) \<Rightarrow> (string \<Rightarrow> (string \<times> ('n, 't, 'o) param_value) list \<Rightarrow> 'p)
    \<Rightarrow> string \<Rightarrow> (string \<times> ('n, 't, 'o) param_value) list \<Rightarrow> error + 'p" where
  "BindParams nd_array ffi_BindParams func_name params =
     (case bind_params_loop nd_array [] params of
        Inl e \<Rightarrow> Inl e
      | Inr tvm_params \<Rightarrow> Inr (ffi_BindParams func_name tvm_params))"

text \<open>The conversion of one value, as the loop body does it.\<close>

fun to_tvm :: "('n \<Rightarrow> 't) \<Rightarrow> ('n, 't, 'o) param_value \<Rightarrow> ('n, 't, 'o) param_value" where
  "to_tvm nd_array (Numpy_ndarray a) = TVM_NDArray (nd_array a)"
| "to_tvm nd_array v = v"

fun is_Other_value :: "('n, 't, 'o) param_value \<Rightarrow> bool" where
  "is_Other_value (Other_value x) = True"
| "is_Other_value _ = False"

section \<open>The IR builder (script/ir_builder/relax/ir.py)\<close>

subsection \<open>arg\<close>

text \<open>
  The \<open>type\<close> argument of \<open>arg\<close>: a TVM \<open>Type\<close>, or the \<open>TensorType\<close> of the builder,
  which has a \<open>shape\<close> field (possibly \<open>None\<close>) and a \<open>type\<close> field.
\<close>

datatype ('t, 's) type_arg =
    Type 't
  | TensorType (tensor_shape: "'s option") (tensor_type: 't)

text \<open>
  \<open>arg\<close>; the native \<open>_ffi_api.Arg(name, type, shape)\<close>, which adds the parameter to the
  last function frame, is a parameter acting on the builder's state.
\<close>

definition arg ::
  "(string \<Rightarrow> 't \<Rightarrow> 's option \<Rightarrow> 'st \<Rightarrow> error + 'v \<times> 'st)
    \<Rightarrow> string \<Rightarrow> ('t, 's) type_arg \<Rightarrow> 's option \<Rightarrow> 'st \<Rightarrow> error + 'v \<times> 'st" where
  "arg ffi_Arg name type shape st =
     (case type of
        TensorType tshape ttype \<Rightarrow>
          (if shape \<noteq> None then Inl ValueError else ffi_Arg name ttype tshape st)
      | Type t \<Rightarrow> ffi_Arg name t shape st)"

subsection \<open>output\<close>

text \<open>
  \<open>output(*vars)\<close>, here \<open>output'\<close>: the native \<open>_ffi_api.DataflowBlockOutput(vars)\<close>
  acts on the builder's state and may raise; then the tuple \<open>vars\<close> is returned.
\<close>

definition output' ::
  "('v list \<Rightarrow> 'st \<Rightarrow> error + 'st) \<Rightarrow> 'v list \<Rightarrow> 'st \<Rightarrow> error + 'v list \<times> 'st" where
  "output' ffi_DataflowBlockOutput vars st =
     (case ffi_DataflowBlockOutput vars st of
        Inl e \<Rightarrow> Inl e
      | Inr st' \<Rightarrow> Inr (vars, st'))"

section \<open>The frame stack and the binding emitter\<close>

text \<open>
  The frames and the native builder functions (\<open>_ffi_api.Emit\<close>,
  \<open>_ffi_api.EmitMatchShape\<close>, \<open>_ffi_api.DataflowBlockOutput\<close>, the frames' enter and
  exit) are implemented outside the Python sources, which only call them. This section
  models them from the specification (its sections 3, 4.1 and 4.2).
\<close>

subsection \<open>Data model\<close>

text \<open>
  Modelled from the spec: the Var (a name, a type, an optional shape) and the Binding (a
  var, its value expression, the dataflow flag) of section 3. The types of expressions,
  of types and of shapes are parameters.
\<close>

datatype ('t, 's) Var =
  Var (var_name: string) (var_type: 't) (var_shape: "'s option")

datatype ('e, 't, 's) Binding =
  Binding (binding_var: "('t, 's) Var") (binding_value: 'e) (binding_is_dataflow: bool)

text \<open>
  Modelled from the spec: the variant tag of a frame (section 3); a Block frame says
  whether it is a dataflow block.
\<close>

datatype frame_kind =
    ModuleFrame
  | FunctionFrame
  | BlockFrame bool
  | IfFrame
  | ThenFrame
  | ElseFrame

text \<open>
  Modelled from the spec: the immutable nodes that the frames finalize into (sections 2
  and 4.1): a module, a function with its args, attrs, return type, nested blocks and
  return expression, a binding block with its bindings and output vars, the two
  branches, and the conditional made of them.
\<close>

datatype ('e, 't, 's) IRNode =
    Module "('e, 't, 's) IRNode list"
  | Function "('t, 's) Var list" "(string \<times> 'e) list" "'t option"
      "('e, 't, 's) IRNode list" 'e
  | BindingBlock bool "('e, 't, 's) Binding list" "('t, 's) Var list"
  | ThenBranch "('e, 't, 's) IRNode list"
  | ElseBranch "('e, 't, 's) IRNode list"
  | IfNode "('e, 't, 's) IRNode" "('e, 't, 's) IRNode"

fun is_ThenBranch :: "('e, 't, 's) IRNode \<Rightarrow> bool" where
  "is_ThenBranch (ThenBranch ns) = True"
| "is_ThenBranch _ = False"

fun is_ElseBranch :: "('e, 't, 's) IRNode \<Rightarrow> bool" where
  "is_ElseBranch (ElseBranch ns) = True"
| "is_ElseBranch _ = False"

text \<open>
  Modelled from the spec: a Frame (section 3) with its \<open>kind\<close>, \<open>pending_bindings\<close>,
  \<open>declared_vars\<close>, \<open>attrs\<close> and \<open>output_vars\<close>; the \<open>parent\<close> back-reference is the
  next frame of the stack. For the finalize routines of section 4.1 a frame also records
  the function's \<open>args\<close>, \<open>ret_type\<close> and return value, and the \<open>results\<close> that nested
  frames handed to it on their exit.
\<close>

record ('e, 't, 's) Frame =
  kind :: frame_kind
  pending_bindings :: "('e, 't, 's) Binding list"
  declared_vars :: "string list"
  attrs :: "(string \<times> 'e) list"
  output_vars :: "('t, 's) Var list"
  args :: "('t, 's) Var list"
  ret_type :: "'t option"
  ret_value :: "'e option"
  results :: "('e, 't, 's) IRNode list"

text \<open>
  Modelled from the spec: a frame as it is when it is opened, with nothing recorded yet.
\<close>

definition new_frame :: "frame_kind \<Rightarrow> ('e, 't, 's) Frame" where
  "new_frame k =
     \<lparr>kind = k, pending_bindings = [], declared_vars = [], attrs = [], output_vars = [],
      args = [], ret_type = None, ret_value = None, results = []\<rparr>"

subsection \<open>FrameStack: enter, exit, current\<close>

text \<open>
  Modelled from the spec: the kind-specific finalize routines of section 4.1. A Function
  without a return value fails with \<open>MissingReturnError\<close>; a dataflow block whose
  \<open>output_vars\<close> are not all bound in the block fails with \<open>UndefinedOutputError\<close>; an If
  frame needs exactly one Then and one Else result, else \<open>IncompleteBranchError\<close>. The
  bindings of a finalized block are in emission order.
\<close>

definition finalize :: "('e, 't, 's) Frame \<Rightarrow> error + ('e, 't, 's) IRNode" where
  "finalize f =
     (case kind f of
        ModuleFrame \<Rightarrow> Inr (Module (results f))
      | FunctionFrame \<Rightarrow>
          (case ret_value f of
             None \<Rightarrow> Inl MissingReturnError
           | Some r \<Rightarrow> Inr (Function (args f) (attrs f) (ret_type f) (results f) r))
      | BlockFrame is_dataflow \<Rightarrow>
          (if is_dataflow \<and>
              \<not> list_all (\<lambda>v. v \<in> set (map binding_var (pending_bindings f))) (output_vars f)
           then Inl UndefinedOutputError
           else Inr (BindingBlock is_dataflow (pending_bindings f) (output_vars f)))
      | IfFrame \<Rightarrow>
          (case (filter is_ThenBranch (results f), filter is_ElseBranch (results f)) of
             ([t], [e]) \<Rightarrow> Inr (IfNode t e)
           | _ \<Rightarrow> Inl IncompleteBranchError)
      | ThenFrame \<Rightarrow> Inr (ThenBranch (results f))
      | ElseFrame \<Rightarrow> Inr (ElseBranch (results f)))"

text \<open>
  Modelled from the spec: the one rule the specification gives for an illegal \<open>enter\<close>:
  a dataflow Block frame may be entered only when the top frame is a Function frame or a
  non-dataflow Block.
\<close>

fun legal_enter :: "frame_kind \<Rightarrow> ('e, 't, 's) Frame list \<Rightarrow> bool" where
  "legal_enter (BlockFrame True) [] = False"
| "legal_enter (BlockFrame True) (top_frame # rest) =
     (kind top_frame = FunctionFrame \<or> kind top_frame = BlockFrame False)"
| "legal_enter k stack = True"

text \<open>
  Modelled from the spec: \<open>enter(frame)\<close> pushes the frame, or fails with
  \<open>FrameStackError\<close> when its kind is illegal in the current context.
\<close>

definition enter ::
  "('e, 't, 's) Frame \<Rightarrow> ('e, 't, 's) Frame list \<Rightarrow> error + ('e, 't, 's) Frame list" where
  "enter frame stack =
     (if legal_enter (kind frame) stack then Inr (frame # stack) else Inl FrameStackError)"

text \<open>
  Modelled from the spec: \<open>exit()\<close> fails with \<open>FrameStackError\<close> on the empty stack;
  otherwise it pops the top frame, finalizes it and hands the node to the new top frame,
  which stores it among its \<open>results\<close>.
\<close>

definition exit ::
  "('e, 't, 's) Frame list \<Rightarrow> error + ('e, 't, 's) IRNode \<times> ('e, 't, 's) Frame list" where
  "exit stack =
     (case stack of
        [] \<Rightarrow> Inl FrameStackError
      | top_frame # rest \<Rightarrow>
          (case finalize top_frame of
             Inl e \<Rightarrow> Inl e
           | Inr node \<Rightarrow>
               (case rest of
                  [] \<Rightarrow> Inr (node, [])
                | parent # rest' \<Rightarrow>
                    Inr (node, parent\<lparr>results := results parent @ [node]\<rparr> # rest'))))"

text \<open>Modelled from the spec: \<open>current()\<close>, the top frame, or \<open>FrameStackError\<close>.\<close>

definition current :: "('e, 't, 's) Frame list \<Rightarrow> error + ('e, 't, 's) Frame" where
  "current stack = (case stack of [] \<Rightarrow> Inl FrameStackError | top_frame # rest \<Rightarrow> Inr top_frame)"

text \<open>Modelled from the spec: the stack depth, the number of active frames.\<close>

definition depth :: "('e, 't, 's) Frame list \<Rightarrow> nat" where
  "depth stack = length stack"

text \<open>
  Modelled from the spec: a sequence of enter and exit calls, run from a stack; errors
  abort immediately (section 7), so the run stops at the first failure.
\<close>

datatype ('e, 't, 's) frame_op =
    Enter "('e, 't, 's) Frame"
  | Exit

fun run_ops ::
  "('e, 't, 's) frame_op list \<Rightarrow> ('e, 't, 's) Frame list \<Rightarrow> error + ('e, 't, 's) Frame list"
  where
  "run_ops [] stack = Inr stack"
| "run_ops (Enter f # ops) stack =
     (case enter f stack of Inl e \<Rightarrow> Inl e | Inr stack' \<Rightarrow> run_ops ops stack')"
| "run_ops (Exit # ops) stack =
     (case exit stack of Inl e \<Rightarrow> Inl e | Inr (node, stack') \<Rightarrow> run_ops ops stack')"

text \<open>
  The calls are matched pairs when every exit closes an enter of the sequence and no
  enter is left open: \<open>matched_from n\<close> reads the sequence with \<open>n\<close> enters still open.
\<close>

fun matched_from :: "nat \<Rightarrow> ('e, 't, 's) frame_op list \<Rightarrow> bool" where
  "matched_from n [] = (n = 0)"
| "matched_from n (Enter f # ops) = matched_from (Suc n) ops"
| "matched_from 0 (Exit # ops) = False"
| "matched_from (Suc n) (Exit # ops) = matched_from n ops"

definition matched :: "('e, 't, 's) frame_op list \<Rightarrow> bool" where
  "matched ops = matched_from 0 ops"

subsection \<open>BindingEmitter: emit, emit_match_shape, output\<close>

text \<open>
  Modelled from the spec: the external collaborators of the emitter. The specification
  leaves to them the type and shape system, which infers the type and shape of an
  expression and matches a shape against a pattern, and it does not say how the fresh
  name of an emitted variable is chosen. They are the fields of this record;
  \<open>fresh_name\<close> receives the names declared in the enclosing function and the dataflow
  flag.
\<close>

record ('e, 't, 's, 'p) collaborators =
  infer_type :: "'e \<Rightarrow> 't"
  infer_shape :: "'e \<Rightarrow> 's option"
  shape_matches :: "'e \<Rightarrow> 'p \<Rightarrow> bool"
  fresh_name :: "string list \<Rightarrow> bool \<Rightarrow> string"

text \<open>
  Modelled from the spec: the \<open>declared_vars\<close> of the enclosing Function frame (the
  nearest one in the stack), against which the fresh name is chosen, and the recording
  of the new name there.
\<close>

fun enclosing_declared :: "('e, 't, 's) Frame list \<Rightarrow> string list" where
  "enclosing_declared [] = []"
| "enclosing_declared (f # stack) =
     (if kind f = FunctionFrame then declared_vars f else enclosing_declared stack)"

fun declare_in_function :: "string \<Rightarrow> ('e, 't, 's) Frame list \<Rightarrow> ('e, 't, 's) Frame list" where
  "declare_in_function n [] = []"
| "declare_in_function n (f # stack) =
     (if kind f = FunctionFrame then f\<lparr>declared_vars := declared_vars f @ [n]\<rparr> # stack
      else f # declare_in_function n stack)"

fun is_BlockFrame :: "frame_kind \<Rightarrow> bool" where
  "is_BlockFrame (BlockFrame d) = True"
| "is_BlockFrame _ = False"

text \<open>
  Modelled from the spec: \<open>emit(value_expr, is_dataflow_var)\<close> of section 4.2, the
  native \<open>_ffi_api.Emit\<close>. It requires the current frame to be a Block frame, makes a
  Var with a fresh name and the inferred type and shape, appends one Binding to the
  current frame and returns the Var. Without an active frame \<open>current()\<close> fails with
  \<open>FrameStackError\<close>; the specification names no other error for a current frame that
  is not a Block, and the model fails with \<open>FrameStackError\<close> there too.
\<close>

definition Emit ::
  "('e, 't, 's, 'p) collaborators \<Rightarrow> 'e \<Rightarrow> bool \<Rightarrow> ('e, 't, 's) Frame list
    \<Rightarrow> error + ('t, 's) Var \<times> ('e, 't, 's) Frame list" where
  "Emit c value is_dataflow_var stack =
     (case stack of
        [] \<Rightarrow> Inl FrameStackError
      | top_frame # rest \<Rightarrow>
          (if \<not> is_BlockFrame (kind top_frame) then Inl FrameStackError
           else
             (let v = Var (fresh_name c (enclosing_declared stack) is_dataflow_var)
                        (infer_type c value) (infer_shape c value);
                  b = Binding v value is_dataflow_var
              in Inr (v, declare_in_function (var_name v)
                           (top_frame\<lparr>pending_bindings := pending_bindings top_frame @ [b]\<rparr>
                              # rest)))))"

text \<open>
  Modelled from the spec: \<open>emit_match_shape(value, pattern, emit_var,
  is_dataflow_var)\<close> of section 4.2, the native \<open>_ffi_api.EmitMatchShape\<close>. A mismatch
  fails with \<open>ShapeMismatchError\<close>; if \<open>emit_var\<close> is true it additionally performs the
  \<open>emit\<close> behaviour and returns the created Var, else it returns nothing.
\<close>

definition EmitMatchShape ::
  "('e, 't, 's, 'p) collaborators \<Rightarrow> 'e \<Rightarrow> 'p \<Rightarrow> bool \<Rightarrow> bool \<Rightarrow> ('e, 't, 's) Frame list
    \<Rightarrow> error + ('t, 's) Var option \<times> ('e, 't, 's) Frame list" where
  "EmitMatchShape c value pattern emit_var is_dataflow_var stack =
     (if \<not> shape_matches c value pattern then Inl ShapeMismatchError
      else if emit_var then
        (case Emit c value is_dataflow_var stack of
           Inl e \<Rightarrow> Inl e
         | Inr (v, stack') \<Rightarrow> Inr (Some v, stack'))
      else Inr (None, stack))"

text \<open>
  Modelled from the spec: \<open>output(*vars)\<close> of section 4.2, the native
  \<open>_ffi_api.DataflowBlockOutput\<close>. It requires the current frame to be a dataflow Block
  frame and records the vars as its \<open>output_vars\<close>; otherwise it fails with
  \<open>NotInDataflowBlockError\<close> (\<open>FrameStackError\<close> when no frame is active).
\<close>

definition DataflowBlockOutput ::
  "('t, 's) Var list \<Rightarrow> ('e, 't, 's) Frame list \<Rightarrow> error + ('e, 't, 's) Frame list" where
  "DataflowBlockOutput vars stack =
     (case stack of
        [] \<Rightarrow> Inl FrameStackError
      | top_frame # rest \<Rightarrow>
          (if kind top_frame = BlockFrame True then Inr (top_frame\<lparr>output_vars := vars\<rparr> # rest)
           else Inl NotInDataflowBlockError))"

text \<open>
  The Python functions \<open>emit\<close> and \<open>emit_match_shape\<close> of ir.py return what the native
  function returns.
\<close>

definition emit ::
  "('e, 't, 's, 'p) collaborators \<Rightarrow> 'e \<Rightarrow> bool \<Rightarrow> ('e, 't, 's) Frame list
    \<Rightarrow> error + ('t, 's) Var \<times> ('e, 't, 's) Frame list" where
  "emit c value is_dataflow_var stack = Emit c value is_dataflow_var stack"

definition emit_match_shape ::
  "('e, 't, 's, 'p) collaborators \<Rightarrow> 'e \<Rightarrow> 'p \<Rightarrow> bool \<Rightarrow> bool \<Rightarrow> ('e, 't, 's) Frame list
    \<Rightarrow> error + ('t, 's) Var option \<times> ('e, 't, 's) Frame list" where
  "emit_match_shape c value pattern emit_var is_dataflow_var stack =
     EmitMatchShape c value pattern emit_var is_dataflow_var stack"

section \<open>The pass pipeline runner\<close>

text \<open>
  The runner is not part of the Python sources. This section models it from the
  specification (its section 4.4): the ordering algorithm, then the execution in the
  resolved order.
\<close>

text \<open>
  Modelled from the spec: a Pass is its \<open>info\<close> and a callable; the runner reads the
  \<open>name\<close>, \<open>opt_level\<close> and \<open>required\<close> of the \<open>info\<close>.
\<close>

definition pass_name :: "('f, 'i) Pass \<Rightarrow> string" where
  "pass_name p = info_name (info_of_pass p)"

definition pass_opt_level :: "('f, 'i) Pass \<Rightarrow> int" where
  "pass_opt_level p = info_opt_level (info_of_pass p)"

definition pass_required :: "('f, 'i) Pass \<Rightarrow> string list" where
  "pass_required p = info_required (info_of_pass p)"

text \<open>Modelled from the spec: a \<open>required\<close> name is absent from the provided pass set.\<close>

definition missing_dependency :: "('f, 'i) Pass list \<Rightarrow> bool" where
  "missing_dependency passes =
     list_ex (\<lambda>p. list_ex (\<lambda>r. r \<notin> set (map pass_name passes)) (pass_required p)) passes"

text \<open>
  Modelled from the spec: the readiness of a pass in the dependency graph built from the
  \<open>required\<close> names. The passes still to be placed are kept with their position in the
  input. A pass is ready when none of the names it requires is the name of a pass still
  to be placed (itself included).
\<close>

definition ready :: "(nat \<times> ('f, 'i) Pass) list \<Rightarrow> nat \<times> ('f, 'i) Pass \<Rightarrow> bool" where
  "ready remaining c =
     list_all (\<lambda>r. r \<notin> set (map (pass_name \<circ> snd) remaining)) (pass_required (snd c))"

text \<open>
  Modelled from the spec: the tie-break, ascending \<open>opt_level\<close>, then input order; \<open>pick\<close>
  takes the candidate that is first in it.
\<close>

definition tie_key :: "nat \<times> ('f, 'i) Pass \<Rightarrow> int \<times> nat" where
  "tie_key c = (pass_opt_level (snd c), fst c)"

definition pick :: "(nat \<times> ('f, 'i) Pass) list \<Rightarrow> (nat \<times> ('f, 'i) Pass) option" where
  "pick candidates =
     (if candidates = [] then None else Some (arg_min_list tie_key candidates))"

text \<open>
  Modelled from the spec: the topological sort. At every step the ready pass that is
  first by \<open>opt_level\<close> and then by input order is placed; when passes remain and none
  is ready, the dependency graph has a cycle.
\<close>

function topological_sort ::
  "(nat \<times> ('f, 'i) Pass) list \<Rightarrow> error + (nat \<times> ('f, 'i) Pass) list" where
  "topological_sort [] = Inr []"
| "topological_sort (x # xs) =
     (case pick (filter (ready (x # xs)) (x # xs)) of
        None \<Rightarrow> Inl PassCycleError
      | Some c \<Rightarrow>
          (case topological_sort (remove1 c (x # xs)) of
             Inl e \<Rightarrow> Inl e
           | Inr order \<Rightarrow> Inr (c # order)))"
  by pat_completeness auto
termination
proof (relation "measure length")
  show "wf (measure length)" by simp
next
  fix x :: "nat \<times> ('f, 'i) Pass" and xs c
  have in_set: "c \<in> set cs" if "pick cs = Some c" for cs :: "(nat \<times> ('f, 'i) Pass) list"
    using that by (auto simp: pick_def arg_min_list_in split: if_splits)
  assume "pick (filter (ready (x # xs)) (x # xs)) = Some c"
  then have "c \<in> set (filter (ready (x # xs)) (x # xs))"
    by (rule in_set)
  then have "c \<in> set (x # xs)"
    by (simp only: set_filter mem_Collect_eq)
  then show "(remove1 c (x # xs), x # xs) \<in> measure length"
    by (auto simp: length_remove1 dest: length_pos_if_in_set)
qed

text \<open>
  Modelled from the spec: the ordering algorithm. \<open>PassDependencyError\<close> if a
  \<open>required\<close> name is absent from the provided pass set, \<open>PassCycleError\<close> if the
  dependency graph has a cycle, else the passes in the resolved order, each with its
  position in the input.
\<close>

definition resolve_order ::
  "('f, 'i) Pass list \<Rightarrow> error + (nat \<times> ('f, 'i) Pass) list" where
  "resolve_order passes =
     (if missing_dependency passes then Inl PassDependencyError
      else topological_sort (enumerate 0 passes))"

text \<open>
  Modelled from the spec: the execution. Passes applied in sequence, each consuming the module produced by the previous one;
  the first failure aborts the run.
\<close>

fun apply_passes ::
  "(('f, 'i) Pass \<Rightarrow> 'm \<Rightarrow> error + 'm) \<Rightarrow> ('f, 'i) Pass list \<Rightarrow> 'm \<Rightarrow> error + 'm" where
  "apply_passes apply_pass [] module = Inr module"
| "apply_passes apply_pass (p # ps) module =
     (case apply_pass p module of
        Inl e \<Rightarrow> Inl e
      | Inr module' \<Rightarrow> apply_passes apply_pass ps module')"

text \<open>
  Modelled from the spec: \<open>run(module, passes, opt_level_ceiling)\<close>. The order is
  resolved over the provided pass set; the passes whose \<open>opt_level\<close> is at most the
  ceiling are applied in that order. What applying one pass to a module does (the
  adapters of section 4.3) is the parameter \<open>apply_pass\<close>.
\<close>

definition run ::
  "(('f, 'i) Pass \<Rightarrow> 'm \<Rightarrow> error + 'm) \<Rightarrow> 'm \<Rightarrow> ('f, 'i) Pass list \<Rightarrow> int \<Rightarrow> error + 'm" where
  "run apply_pass module passes opt_level_ceiling =
     (case resolve_order passes of
        Inl e \<Rightarrow> Inl e
      | Inr order \<Rightarrow>
          apply_passes apply_pass
            (filter (\<lambda>p. pass_opt_level p \<le> opt_level_ceiling) (map snd order)) module)"

subsection \<open>What the ordering is required to satisfy\<close>

text \<open>
  The dependency graph over the positions of the input: an edge from \<open>i\<close> to \<open>j\<close> when
  pass \<open>j\<close> requires the name of pass \<open>i\<close>. It has a cycle when some position reaches
  itself.
\<close>

definition dependency_graph :: "('f, 'i) Pass list \<Rightarrow> (nat \<times> nat) set" where
  "dependency_graph passes =
     {(i, j). i < length passes \<and> j < length passes \<and>
              pass_name (passes ! i) \<in> set (pass_required (passes ! j))}"

definition has_cycle :: "('f, 'i) Pass list \<Rightarrow> bool" where
  "has_cycle passes = (\<exists>i. (i, i) \<in> (dependency_graph passes)\<^sup>+)"

text \<open>Every pass is placed after all the passes whose name it requires.\<close>

definition requirements_first :: "(nat \<times> ('f, 'i) Pass) list \<Rightarrow> bool" where
  "requirements_first order =
     (\<forall>k < length order. \<forall>l < length order.
        pass_name (snd (order ! l)) \<in> set (pass_required (snd (order ! k))) \<longrightarrow> l < k)"

text \<open>
  \<open>a\<close> goes before \<open>b\<close> in a tie: lower \<open>opt_level\<close>, or the same \<open>opt_level\<close> and earlier
  in the input.
\<close>

definition tie_before :: "nat \<times> ('f, 'i) Pass \<Rightarrow> nat \<times> ('f, 'i) Pass \<Rightarrow> bool" where
  "tie_before a b =
     (pass_opt_level (snd a) < pass_opt_level (snd b) \<or>
      (pass_opt_level (snd a) = pass_opt_level (snd b) \<and> fst a < fst b))"

text \<open>
  The tie-break: whenever the pass at a later place \<open>l\<close> could already have been placed at
  place \<open>k\<close> (none of the names it requires belongs to a pass placed at \<open>k\<close> or later),
  the pass placed at \<open>k\<close> goes before it in a tie.
\<close>

definition ties_broken :: "(nat \<times> ('f, 'i) Pass) list \<Rightarrow> bool" where
  "ties_broken order =
     (\<forall>k < length order. \<forall>l < length order.
        k < l \<and>
        (\<forall>m < length order. k \<le> m \<longrightarrow>
           pass_name (snd (order ! m)) \<notin> set (pass_required (snd (order ! l))))
        \<longrightarrow> tie_before (order ! k) (order ! l))"

section \<open>Notions used to state the properties\<close>

text \<open>
  The name that \<open>fname = name if name else pass_arg.__name__\<close> records: the \<open>__name__\<close> when
  \<open>name\<close> is \<open>None\<close> or empty, else \<open>name\<close>.
\<close>

definition recorded_name :: "string option \<Rightarrow> string \<Rightarrow> string" where
  "recorded_name name dname =
     (case name of None \<Rightarrow> dname | Some s \<Rightarrow> if s = [] then dname else s)"

text \<open>The call returned a pass value: a pass object, not a class, a decorator or an error.\<close>

fun returns_pass_value :: "error + ('f, 'a, 'i) pass_result \<Rightarrow> bool" where
  "returns_pass_value (Inr (Decorated (PassObject p))) = True"
| "returns_pass_value _ = False"

text \<open>Concrete collaborators and a concrete sequence of frame operations.\<close>

definition example_collaborators :: "(nat, nat, nat, nat) collaborators" where
  "example_collaborators =
     \<lparr>infer_type = (\<lambda>e. e), infer_shape = (\<lambda>e. Some e), shape_matches = (\<lambda>e p. e = p),
      fresh_name = (\<lambda>declared d. if d then ''lv0'' else ''gv0'')\<rparr>"

definition example_ops :: "(nat, nat, nat) frame_op list" where
  "example_ops =
     [Enter ((new_frame FunctionFrame)\<lparr>ret_value := Some 1\<rparr>),
      Enter (new_frame (BlockFrame True)), Exit,
      Enter (new_frame IfFrame), Enter (new_frame ThenFrame), Exit,
      Enter (new_frame ElseFrame), Exit, Exit,
      Exit]"

text \<open>
  Example passes for the runner: \<open>B\<close> requires \<open>A\<close>; a pass requiring a name that no pass
  has; an \<open>A\<close> that requires \<open>B\<close>. Applying a pass is traced by appending its name to the
  module, here a list of names.
\<close>

definition pass_A :: "(nat, nat) Pass" where
  "pass_A = FunctionPass (UserFunction 0) (PassInfo 2 ''A'' [] False)"

definition pass_B :: "(nat, nat) Pass" where
  "pass_B = DataflowBlockPass (UserFunction 1) (PassInfo 0 ''B'' [''A''] False)"

definition pass_C :: "(nat, nat) Pass" where
  "pass_C = FunctionPass (UserFunction 2) (PassInfo 1 ''C'' [] False)"

definition pass_B_missing :: "(nat, nat) Pass" where
  "pass_B_missing = FunctionPass (UserFunction 3) (PassInfo 0 ''B'' [''Missing''] False)"

definition pass_A_cyclic :: "(nat, nat) Pass" where
  "pass_A_cyclic = FunctionPass (UserFunction 4) (PassInfo 0 ''A'' [''B''] False)"

definition trace_pass :: "(nat, nat) Pass \<Rightarrow> string list \<Rightarrow> error + string list" where
  "trace_pass p module = Inr (module @ [pass_name p])"

section \<open>Properties of pass registration\<close>

text \<open>
  C8. A call of \<open>function_pass\<close> or \<open>dataflowblock_pass\<close> without \<open>opt_level\<close> fails with
  \<open>ValueError\<close>, whatever the other arguments are: the result is the error, and neither
  a pass nor a decorator.
\<close>

theorem opt_level_omitted_ValueError:
  "function_pass (pass_func :: ('f, 'a, 'i) py_object) None name required traceable
     = Inl ValueError \<and>
   dataflowblock_pass (pass_func :: ('f, 'a, 'i) py_object) None name required traceable
     = Inl ValueError"
  by (simp add: function_pass_def dataflowblock_pass_def)

text \<open>
  C2. Called with a transformation function (a plain function or a lambda), an integer
  \<open>opt_level\<close>, and optionally a name, a list or tuple of required names and the
  traceable flag, \<open>function_pass\<close> returns a \<open>FunctionPass\<close> and \<open>dataflowblock_pass\<close> a
  \<open>DataflowBlockPass\<close>, holding the function and the \<open>PassInfo\<close> built from the arguments.
\<close>

theorem pass_from_function:
  "is_list_or_tuple (required_or_empty required) \<Longrightarrow>
   function_pass (PyFunction fn f :: ('f, 'a, 'i) py_object) (Some opt_level) name required
       traceable
     = Inr (Decorated (PassObject (FunctionPass (UserFunction f)
         (PassInfo opt_level (recorded_name name fn)
            (required_names (required_or_empty required)) traceable)))) \<and>
   dataflowblock_pass (PyFunction fn f :: ('f, 'a, 'i) py_object) (Some opt_level) name
       required traceable
     = Inr (Decorated (PassObject (DataflowBlockPass (UserFunction f)
         (PassInfo opt_level (recorded_name name fn)
            (required_names (required_or_empty required)) traceable))))"
  by (cases name)
    (auto simp: function_pass_def dataflowblock_pass_def create_function_pass_def
      create_dataflowblock_pass_def MakeFunctionPass_def MakeDataflowBlockPass_def Let_def
      recorded_name_def)

theorem pass_from_function_witness:
  "is_list_or_tuple (required_or_empty (ReqList [''Normalize''])) \<and>
   function_pass (PyFunction ''transform'' (0::nat) :: (nat, unit, unit) py_object) (Some 2)
       None (ReqList [''Normalize'']) False
     = Inr (Decorated (PassObject (FunctionPass (UserFunction 0)
         (PassInfo 2 ''transform'' [''Normalize''] False)))) \<and>
   dataflowblock_pass (PyLambda (0::nat) :: (nat, unit, unit) py_object) (Some 2)
       (Some ''fold'') ReqNone True
     = Inr (Decorated (PassObject (DataflowBlockPass (UserFunction 0)
         (PassInfo 2 ''fold'' [] True))))"
proof -
  have h1: "is_list_or_tuple (required_or_empty (ReqList [''Normalize'']))" by simp
  have h2: "is_list_or_tuple (required_or_empty ReqNone)" by simp
  show ?thesis
    using h1
      pass_from_function [OF h1, where 'a = unit and 'i = unit,
        of "''transform''" "0::nat" 2 None False]
      pass_from_function [OF h2, where 'a = unit and 'i = unit,
        of "''<lambda>''" "0::nat" 2 "Some ''fold''" True]
    by (simp add: recorded_name_def PyLambda_def)
qed

text \<open>
  C3, as the claim states it, fails: registering from a function returns a pass value,
  registering from a class does not (it returns a class).
\<close>

theorem pass_from_class_counterexample:
  "returns_pass_value
     (function_pass (PyFunction ''transform'' (0::nat) :: (nat, nat, nat) py_object) (Some 2)
        None ReqNone False) \<and>
   \<not> returns_pass_value
     (function_pass (PyClass ''TestReplaceFunc'' Inr :: (nat, nat, nat) py_object) (Some 1)
        None ReqNone False) \<and>
   \<not> returns_pass_value
     (dataflowblock_pass (PyClass ''TestReplaceBinding'' Inr :: (nat, nat, nat) py_object)
        (Some 1) None ReqNone False)"
  by (simp add: function_pass_def dataflowblock_pass_def create_function_pass_def
      create_dataflowblock_pass_def MakeFunctionPass_def)

text \<open>
  C3, amended. Registering from a plain function yields a pass object. Registering from
  a class yields a wrapper class that carries the same \<open>PassInfo\<close> and the name of the
  class; it is the instantiation of that wrapper class, with the arguments of the
  class's constructor, that yields a pass object, holding the instance's transform method
  and that \<open>PassInfo\<close>. This holds of \<open>function_pass\<close> and of \<open>dataflowblock_pass\<close> alike.
\<close>

theorem pass_from_function_or_class:
  "is_list_or_tuple (required_or_empty required) \<Longrightarrow>
   info = PassInfo opt_level (recorded_name name n)
            (required_names (required_or_empty required)) traceable \<Longrightarrow>
   function_pass (PyFunction n f :: ('f, 'a, 'i) py_object) (Some opt_level) name required
       traceable
     = Inr (Decorated (PassObject (FunctionPass (UserFunction f) info))) \<and>
   function_pass (PyClass n pass_cls :: ('f, 'a, 'i) py_object) (Some opt_level) name required
       traceable
     = Inr (Decorated (PassClass (PyFunctionPass n pass_cls info))) \<and>
   (pass_cls ctor_args = Inr inst \<longrightarrow>
      wrapper_init (PyFunctionPass n pass_cls info) ctor_args
        = Inr (FunctionPass (InstanceMethod inst) info :: ('f, 'i) Pass)) \<and>
   dataflowblock_pass (PyFunction n f :: ('f, 'a, 'i) py_object) (Some opt_level) name required
       traceable
     = Inr (Decorated (PassObject (DataflowBlockPass (UserFunction f) info))) \<and>
   dataflowblock_pass (PyClass n pass_cls :: ('f, 'a, 'i) py_object) (Some opt_level) name
       required traceable
     = Inr (Decorated (PassClass (PyDataflowBlockPass n pass_cls info))) \<and>
   (pass_cls ctor_args = Inr inst \<longrightarrow>
      wrapper_init (PyDataflowBlockPass n pass_cls info) ctor_args
        = Inr (DataflowBlockPass (InstanceMethod inst) info :: ('f, 'i) Pass))"
  by (cases name)
    (auto simp: function_pass_def dataflowblock_pass_def create_function_pass_def
      create_dataflowblock_pass_def MakeFunctionPass_def MakeDataflowBlockPass_def Let_def
      recorded_name_def wrap_class_function_pass_def wrap_class_dataflowblock_pass_def)

theorem pass_from_function_or_class_witness:
  "is_list_or_tuple (required_or_empty ReqNone) \<and>
   (Inr 7 :: error + nat) = Inr 7 \<and>
   function_pass (PyClass ''TestReplaceFunc'' Inr :: (nat, nat, nat) py_object) (Some 1) None
       ReqNone False
     = Inr (Decorated (PassClass
         (PyFunctionPass ''TestReplaceFunc'' Inr (PassInfo 1 ''TestReplaceFunc'' [] False)))) \<and>
   wrapper_init (PyFunctionPass ''TestReplaceFunc'' Inr (PassInfo 1 ''TestReplaceFunc'' [] False))
       (7::nat)
     = Inr (FunctionPass (InstanceMethod (7::nat)) (PassInfo 1 ''TestReplaceFunc'' [] False)
             :: (nat, nat) Pass) \<and>
   function_pass (PyFunction ''TestReplaceFunc'' (0::nat) :: (nat, nat, nat) py_object) (Some 1)
       None ReqNone False
     = Inr (Decorated (PassObject
         (FunctionPass (UserFunction 0) (PassInfo 1 ''TestReplaceFunc'' [] False))))"
proof -
  have h1: "is_list_or_tuple (required_or_empty ReqNone)" by simp
  have h2: "PassInfo 1 ''TestReplaceFunc'' [] False
              = PassInfo 1 (recorded_name None ''TestReplaceFunc'')
                  (required_names (required_or_empty ReqNone)) False"
    by (simp add: recorded_name_def)
  have h3: "(Inr 7 :: error + nat) = Inr 7" by simp
  show ?thesis
    using h1 h3
      pass_from_function_or_class [OF h1 h2, where 'f = nat and 'a = nat and 'i = nat,
        of "0::nat" Inr "7::nat" "7::nat"]
    by simp
qed

text \<open>
  C9. For a pass registered from a function or a class, directly or through the
  decorator that \<open>function_pass\<close> or \<open>dataflowblock_pass\<close> returns when no \<open>pass_func\<close> is
  given, the name recorded in the \<open>PassInfo\<close> is the \<open>__name__\<close> of the function or class
  when \<open>name\<close> is \<open>None\<close> or empty, and \<open>name\<close> when it is a non-empty string.
\<close>

theorem recorded_pass_name:
  "is_list_or_tuple (required_or_empty required) \<Longrightarrow>
   pass_arg = PyFunction n f \<or> pass_arg = PyClass n pass_cls \<Longrightarrow>
   (\<exists>d. function_pass (pass_arg :: ('f, 'a, 'i) py_object) (Some opt_level) name required
            traceable = Inr (Decorated d) \<and>
        info_name (decorated_info d) = recorded_name name n) \<and>
   (\<exists>dec d. function_pass (PyNone :: ('f, 'a, 'i) py_object) (Some opt_level) name required
            traceable = Inr (Decorator dec) \<and>
        dec pass_arg = Inr d \<and> info_name (decorated_info d) = recorded_name name n) \<and>
   (\<exists>d. dataflowblock_pass pass_arg (Some opt_level) name required traceable
            = Inr (Decorated d) \<and>
        info_name (decorated_info d) = recorded_name name n) \<and>
   (\<exists>dec d. dataflowblock_pass (PyNone :: ('f, 'a, 'i) py_object) (Some opt_level) name
            required traceable = Inr (Decorator dec) \<and>
        dec pass_arg = Inr d \<and> info_name (decorated_info d) = recorded_name name n)"
  by (cases name)
    (auto simp: function_pass_def dataflowblock_pass_def create_function_pass_def
      create_dataflowblock_pass_def MakeFunctionPass_def MakeDataflowBlockPass_def Let_def
      recorded_name_def wrap_class_function_pass_def wrap_class_dataflowblock_pass_def
      PyNone_def)

theorem recorded_pass_name_witness:
  "is_list_or_tuple (required_or_empty ReqNone) \<and>
   (\<exists>d. function_pass (PyClass ''TestReplaceFunc'' Inr :: (nat, nat, nat) py_object) (Some 1)
            (Some []) ReqNone False = Inr (Decorated d) \<and>
        info_name (decorated_info d) = ''TestReplaceFunc'') \<and>
   (\<exists>d. function_pass (PyFunction ''transform'' 0 :: (nat, nat, nat) py_object) (Some 1)
            (Some ''MyPass'') ReqNone False = Inr (Decorated d) \<and>
        info_name (decorated_info d) = ''MyPass'')"
proof -
  have h1: "is_list_or_tuple (required_or_empty ReqNone)" by simp
  have h2: "(PyClass ''TestReplaceFunc'' Inr :: (nat, nat, nat) py_object)
              = PyFunction ''TestReplaceFunc'' 0 \<or>
            (PyClass ''TestReplaceFunc'' Inr :: (nat, nat, nat) py_object)
              = PyClass ''TestReplaceFunc'' Inr"
    by simp
  have h3: "(PyFunction ''transform'' 0 :: (nat, nat, nat) py_object)
              = PyFunction ''transform'' 0 \<or>
            (PyFunction ''transform'' 0 :: (nat, nat, nat) py_object)
              = PyClass ''transform'' Inr"
    by simp
  show ?thesis
    using h1 recorded_pass_name [OF h1 h2, of 1 "Some []" False]
      recorded_pass_name [OF h1 h3, of 1 "Some ''MyPass''" False]
    by (simp add: recorded_name_def)
qed

section \<open>Properties of BindParams\<close>

lemma dict_set_new_key: "k \<notin> fst ` set d \<Longrightarrow> dict_set d k v = d @ [(k, v)]"
  by (induction d) auto

lemma is_NDArray_to_tvm: "\<not> is_Other_value v \<Longrightarrow> is_NDArray (to_tvm nd v)"
  by (cases v) auto

lemma bind_params_loop_converts:
  "distinct (map fst (acc @ items)) \<Longrightarrow>
   list_all (\<lambda>kv. \<not> is_Other_value (snd kv)) items \<Longrightarrow>
   bind_params_loop nd acc items = Inr (acc @ map (\<lambda>kv. (fst kv, to_tvm nd (snd kv))) items)"
proof (induction items arbitrary: acc)
  case Nil
  then show ?case by simp
next
  case (Cons kv items)
  obtain k v where kv: "kv = (k, v)" by (cases kv)
  from Cons.prems kv have fresh: "k \<notin> fst ` set acc"
    by auto
  from Cons.prems kv have ok: "\<not> is_Other_value v"
    by simp
  have step: "dict_set acc k (to_tvm nd v) = acc @ [(k, to_tvm nd v)]"
    using fresh by (rule dict_set_new_key)
  have "distinct (map fst ((acc @ [(k, to_tvm nd v)]) @ items))"
    using Cons.prems(1) kv by auto
  moreover have "list_all (\<lambda>kv. \<not> is_Other_value (snd kv)) items"
    using Cons.prems(2) by simp
  ultimately have IH:
    "bind_params_loop nd (acc @ [(k, to_tvm nd v)]) items
       = Inr ((acc @ [(k, to_tvm nd v)]) @ map (\<lambda>kv. (fst kv, to_tvm nd (snd kv))) items)"
    by (rule Cons.IH)
  have "bind_params_loop nd acc ((k, v) # items)
          = bind_params_loop nd (dict_set acc k (to_tvm nd v)) items"
    using ok by (cases v) simp_all
  then show ?case
    using IH step kv by simp
qed

lemma bind_params_loop_fails:
  "list_ex (\<lambda>kv. is_Other_value (snd kv)) items \<Longrightarrow>
   bind_params_loop nd acc items = Inl AssertionError"
proof (induction items arbitrary: acc)
  case Nil
  then show ?case by simp
next
  case (Cons kv items)
  obtain k v where kv: "kv = (k, v)" by (cases kv)
  show ?case
  proof (cases v)
    case (Other_value x)
    then show ?thesis using kv by simp
  next
    case (Numpy_ndarray a)
    then show ?thesis using Cons kv by simp
  next
    case (TVM_NDArray a)
    then show ?thesis using Cons kv by simp
  qed
qed

text \<open>
  C7. \<open>BindParams\<close> takes a function name and a dictionary (its keys distinct) from
  parameter names to values. When every value is a \<open>numpy.ndarray\<close> or a TVM \<open>NDArray\<close>,
  the native operation receives the function name and the same keys in the same order,
  every \<open>numpy.ndarray\<close> converted by \<open>tvm.nd.array\<close>, so that every value it receives is
  a TVM \<open>NDArray\<close>. When some value is of another type, \<open>BindParams\<close> fails with
  \<open>AssertionError\<close> and the native operation is not reached.
\<close>

theorem BindParams_converts_or_fails:
  "distinct (map fst params) \<Longrightarrow>
   (list_all (\<lambda>kv. \<not> is_Other_value (snd kv)) params \<longrightarrow>
      BindParams nd_array ffi_BindParams func_name params
        = Inr (ffi_BindParams func_name (map (\<lambda>kv. (fst kv, to_tvm nd_array (snd kv))) params)) \<and>
      list_all (\<lambda>kv. is_NDArray (snd kv))
        (map (\<lambda>kv. (fst kv, to_tvm nd_array (snd kv))) params)) \<and>
   (list_ex (\<lambda>kv. is_Other_value (snd kv)) params \<longrightarrow>
      BindParams nd_array ffi_BindParams func_name params = Inl AssertionError)"
proof (intro conjI impI)
  assume d: "distinct (map fst params)"
    and ok: "list_all (\<lambda>kv. \<not> is_Other_value (snd kv)) params"
  from d have "distinct (map fst ([] @ params))" by simp
  from bind_params_loop_converts [OF this ok, of nd_array]
  show "BindParams nd_array ffi_BindParams func_name params
        = Inr (ffi_BindParams func_name (map (\<lambda>kv. (fst kv, to_tvm nd_array (snd kv))) params))"
    by (simp add: BindParams_def)
  from ok show "list_all (\<lambda>kv. is_NDArray (snd kv))
        (map (\<lambda>kv. (fst kv, to_tvm nd_array (snd kv))) params)"
    by (induction params) (auto simp: is_NDArray_to_tvm)
next
  assume "list_ex (\<lambda>kv. is_Other_value (snd kv)) params"
  then show "BindParams nd_array ffi_BindParams func_name params = Inl AssertionError"
    by (simp add: BindParams_def bind_params_loop_fails)
qed

theorem BindParams_converts_or_fails_witness:
  "distinct (map fst [(''w'', Numpy_ndarray (3::nat)), (''b'', TVM_NDArray (4::nat))]) \<and>
   BindParams Suc Pair ''main''
       [(''w'', Numpy_ndarray (3::nat) :: (nat, nat, string) param_value),
        (''b'', TVM_NDArray (4::nat))]
     = Inr (''main'', [(''w'', TVM_NDArray 4), (''b'', TVM_NDArray 4)]) \<and>
   distinct (map fst [(''w'', Numpy_ndarray (3::nat)), (''b'', Other_value ''list'')]) \<and>
   BindParams Suc Pair ''main''
       [(''w'', Numpy_ndarray (3::nat) :: (nat, nat, string) param_value),
        (''b'', Other_value ''list'')]
     = (Inl AssertionError
         :: error + string \<times> (string \<times> (nat, nat, string) param_value) list)"
proof -
  have d1: "distinct (map fst [(''w'', Numpy_ndarray (3::nat) :: (nat, nat, string) param_value),
              (''b'', TVM_NDArray (4::nat))])"
    by simp
  have d2: "distinct (map fst [(''w'', Numpy_ndarray (3::nat) :: (nat, nat, string) param_value),
              (''b'', Other_value ''list'')])"
    by simp
  show ?thesis
    using d1 d2
      BindParams_converts_or_fails [OF d1, of Suc Pair "''main''"]
      BindParams_converts_or_fails [OF d2, of Suc Pair "''main''"]
    by simp
qed

section \<open>Properties of the builder functions of ir.py\<close>

text \<open>
  C10. When the type argument of \<open>arg\<close> is a \<open>TensorType\<close> and a shape is also given,
  \<open>arg\<close> fails with \<open>ValueError\<close>; when the shape is \<open>None\<close>, the parameter is created by
  the native function from the name and the \<open>type\<close> and \<open>shape\<close> fields of the
  \<open>TensorType\<close>.
\<close>

theorem arg_TensorType:
  "arg ffi_Arg name (TensorType tshape ttype) (Some shape) st = Inl ValueError \<and>
   arg ffi_Arg name (TensorType tshape ttype) None st = ffi_Arg name ttype tshape st"
  by (simp add: arg_def)

text \<open>
  C6. When \<open>output\<close> succeeds it returns exactly the vars it was given, in the same
  order; and it succeeds whenever the native declaration does.
\<close>

theorem output_returns_vars:
  "(output' ffi_DataflowBlockOutput vars st = Inr (r, st') \<longrightarrow> r = vars) \<and>
   (ffi_DataflowBlockOutput vars st = Inr st' \<longrightarrow>
      output' ffi_DataflowBlockOutput vars st = Inr (vars, st'))"
  by (auto simp: output'_def split: sum.splits)

theorem output_returns_vars_witness:
  "DataflowBlockOutput [Var ''gv0'' (0::nat) (None :: nat option), Var ''gv1'' 0 None]
     [new_frame (BlockFrame True) :: (nat, nat, nat) Frame]
   = Inr [(new_frame (BlockFrame True))
            \<lparr>output_vars := [Var ''gv0'' 0 None, Var ''gv1'' 0 None]\<rparr>] \<and>
   output' DataflowBlockOutput [Var ''gv0'' (0::nat) (None :: nat option), Var ''gv1'' 0 None]
     [new_frame (BlockFrame True) :: (nat, nat, nat) Frame]
   = Inr ([Var ''gv0'' 0 None, Var ''gv1'' 0 None],
          [(new_frame (BlockFrame True))
             \<lparr>output_vars := [Var ''gv0'' 0 None, Var ''gv1'' 0 None]\<rparr>])"
proof -
  have h: "DataflowBlockOutput [Var ''gv0'' (0::nat) (None :: nat option), Var ''gv1'' 0 None]
             [new_frame (BlockFrame True) :: (nat, nat, nat) Frame]
           = Inr [(new_frame (BlockFrame True))
                    \<lparr>output_vars := [Var ''gv0'' 0 None, Var ''gv1'' 0 None]\<rparr>]"
    by (simp add: DataflowBlockOutput_def new_frame_def)
  show ?thesis
    using h
      output_returns_vars [where ffi_DataflowBlockOutput = DataflowBlockOutput
        and vars = "[Var ''gv0'' (0::nat) (None :: nat option), Var ''gv1'' 0 None]"
        and st = "[new_frame (BlockFrame True) :: (nat, nat, nat) Frame]"
        and st' = "[(new_frame (BlockFrame True) :: (nat, nat, nat) Frame)
                     \<lparr>output_vars := [Var ''gv0'' 0 None, Var ''gv1'' 0 None]\<rparr>]"]
    by blast
qed

section \<open>Properties of the binding emitter and of the frame stack\<close>

lemma declare_in_function_Block:
  "is_BlockFrame (kind f) \<Longrightarrow>
   declare_in_function n (f # stack) = f # declare_in_function n stack"
  by (cases "kind f") auto

lemma length_declare_in_function: "length (declare_in_function n stack) = length stack"
  by (induction stack) auto

lemma Emit_appends_binding:
  "Emit c value is_dataflow_var stack = Inr (v, stack') \<Longrightarrow>
   \<exists>top_frame rest rest'.
     stack = top_frame # rest \<and> is_BlockFrame (kind top_frame) \<and>
     stack' = top_frame\<lparr>pending_bindings :=
                pending_bindings top_frame @ [Binding v value is_dataflow_var]\<rparr> # rest' \<and>
     length rest' = length rest"
proof (cases stack)
  case Nil
  assume "Emit c value is_dataflow_var stack = Inr (v, stack')"
  with Nil show ?thesis by (simp add: Emit_def)
next
  case (Cons top_frame rest)
  assume e: "Emit c value is_dataflow_var stack = Inr (v, stack')"
  show ?thesis
  proof (cases "is_BlockFrame (kind top_frame)")
    case False
    with e Cons show ?thesis by (simp add: Emit_def)
  next
    case True
    let ?f = "top_frame\<lparr>pending_bindings :=
                pending_bindings top_frame @ [Binding v value is_dataflow_var]\<rparr>"
    have k: "is_BlockFrame (kind ?f)" using True by simp
    from e Cons True
    have v: "v = Var (fresh_name c (enclosing_declared stack) is_dataflow_var)
                   (infer_type c value) (infer_shape c value)"
      and s: "stack' = declare_in_function (var_name v) (?f # rest)"
      by (auto simp: Emit_def Let_def)
    from s declare_in_function_Block [OF k]
    have "stack' = ?f # declare_in_function (var_name v) rest" by simp
    with Cons True show ?thesis
      by (simp add: length_declare_in_function)
  qed
qed

text \<open>
  C5. A call of \<open>emit_match_shape\<close> with \<open>emit_var\<close> true that does not fail performs the
  \<open>emit\<close> behaviour (one binding of the value to the created Var is appended to the
  current Block frame) and returns that Var; a call with \<open>emit_var\<close> false that does not
  fail returns nothing.
\<close>

theorem emit_match_shape_result:
  "(emit_match_shape c value pattern True is_dataflow_var stack = Inr (r, stack') \<longrightarrow>
      (\<exists>v. r = Some v \<and> emit c value is_dataflow_var stack = Inr (v, stack') \<and>
           (\<exists>top_frame rest rest'.
              stack = top_frame # rest \<and>
              stack' = top_frame\<lparr>pending_bindings :=
                         pending_bindings top_frame @ [Binding v value is_dataflow_var]\<rparr>
                       # rest'))) \<and>
   (emit_match_shape c value pattern False is_dataflow_var stack = Inr (r, stack') \<longrightarrow>
      r = None)"
proof (intro conjI impI)
  assume a: "emit_match_shape c value pattern True is_dataflow_var stack = Inr (r, stack')"
  then obtain v where r: "r = Some v"
    and e: "Emit c value is_dataflow_var stack = Inr (v, stack')"
    by (auto simp: emit_match_shape_def EmitMatchShape_def split: if_splits sum.splits)
  from Emit_appends_binding [OF e] r e
  show "\<exists>v. r = Some v \<and> emit c value is_dataflow_var stack = Inr (v, stack') \<and>
           (\<exists>top_frame rest rest'.
              stack = top_frame # rest \<and>
              stack' = top_frame\<lparr>pending_bindings :=
                         pending_bindings top_frame @ [Binding v value is_dataflow_var]\<rparr>
                       # rest')"
    by (auto simp: emit_def)
next
  assume "emit_match_shape c value pattern False is_dataflow_var stack = Inr (r, stack')"
  then show "r = None"
    by (auto simp: emit_match_shape_def EmitMatchShape_def split: if_splits)
qed

theorem emit_match_shape_result_witness:
  "emit_match_shape example_collaborators 5 5 True True
     [new_frame (BlockFrame True), new_frame FunctionFrame]
   = Inr (Some (Var ''lv0'' 5 (Some 5)),
          [(new_frame (BlockFrame True))
             \<lparr>pending_bindings := [Binding (Var ''lv0'' 5 (Some 5)) 5 True]\<rparr>,
           (new_frame FunctionFrame)\<lparr>declared_vars := [''lv0'']\<rparr>]) \<and>
   emit_match_shape example_collaborators 5 5 False True
     [new_frame (BlockFrame True), new_frame FunctionFrame]
   = Inr (None, [new_frame (BlockFrame True), new_frame FunctionFrame])"
proof -
  have h1: "emit_match_shape example_collaborators 5 5 True True
     [new_frame (BlockFrame True), new_frame FunctionFrame]
   = Inr (Some (Var ''lv0'' 5 (Some 5)),
          [(new_frame (BlockFrame True))
             \<lparr>pending_bindings := [Binding (Var ''lv0'' 5 (Some 5)) 5 True]\<rparr>,
           (new_frame FunctionFrame)\<lparr>declared_vars := [''lv0'']\<rparr>])"
    by (simp add: emit_match_shape_def EmitMatchShape_def Emit_def example_collaborators_def
        new_frame_def Let_def)
  have h2: "emit_match_shape example_collaborators 5 5 False True
     [new_frame (BlockFrame True), new_frame FunctionFrame]
   = Inr (None, [new_frame (BlockFrame True), new_frame FunctionFrame])"
    by (simp add: emit_match_shape_def EmitMatchShape_def example_collaborators_def)
  from emit_match_shape_result [THEN conjunct1, rule_format, OF h1]
    emit_match_shape_result [THEN conjunct2, rule_format, OF h2] h1 h2
  show ?thesis by simp
qed

lemma enter_depth: "enter f stack = Inr stack' \<Longrightarrow> length stack' = Suc (length stack)"
  by (auto simp: enter_def split: if_splits)

lemma exit_depth: "exit stack = Inr (node, stack') \<Longrightarrow> Suc (length stack') = length stack"
  by (auto simp: exit_def split: list.splits sum.splits)

lemma run_ops_depth:
  "matched_from n ops \<Longrightarrow> run_ops ops stack = Inr stack' \<Longrightarrow>
   length stack' + n = length stack"
proof (induction ops arbitrary: n stack)
  case Nil
  then show ?case by simp
next
  case (Cons op ops)
  show ?case
  proof (cases op)
    case (Enter f)
    with Cons.prems obtain s1 where s1: "enter f stack = Inr s1"
      and r: "run_ops ops s1 = Inr stack'"
      by (auto split: sum.splits)
    from Cons.prems Enter have "matched_from (Suc n) ops" by simp
    from Cons.IH [OF this r] enter_depth [OF s1] show ?thesis by simp
  next
    case Exit
    with Cons.prems obtain node s1 where s1: "exit stack = Inr (node, s1)"
      and r: "run_ops ops s1 = Inr stack'"
      by (auto split: sum.splits)
    from Cons.prems Exit obtain n' where n: "n = Suc n'" and m: "matched_from n' ops"
      by (cases n) auto
    from Cons.IH [OF m r] exit_depth [OF s1] n show ?thesis by simp
  qed
qed

text \<open>
  C4. After a sequence of enter and exit calls that are matched pairs and all succeed,
  the depth of the frame stack is what it was before; and \<open>exit\<close> on the empty stack
  (an exit without a matching enter) fails with \<open>FrameStackError\<close>.
\<close>

theorem matched_pairs_restore_depth:
  "(matched (ops :: ('e, 't, 's) frame_op list) \<and> run_ops ops stack = Inr stack'
      \<longrightarrow> depth stack' = depth stack) \<and>
   exit ([] :: ('e, 't, 's) Frame list) = Inl FrameStackError"
proof (intro conjI impI)
  assume "matched ops \<and> run_ops ops stack = Inr stack'"
  then have "matched_from 0 ops" and "run_ops ops stack = Inr stack'"
    by (simp_all add: matched_def)
  from run_ops_depth [OF this] show "depth stack' = depth stack"
    by (simp add: depth_def)
next
  show "exit ([] :: ('e, 't, 's) Frame list) = Inl FrameStackError"
    by (simp add: exit_def)
qed

theorem matched_pairs_restore_depth_witness:
  "matched example_ops \<and>
   run_ops example_ops [new_frame ModuleFrame]
     = Inr [(new_frame ModuleFrame)
              \<lparr>results := [Function [] [] None
                  [BindingBlock True [] [], IfNode (ThenBranch []) (ElseBranch [])] 1]\<rparr>] \<and>
   depth [(new_frame ModuleFrame)
              \<lparr>results := [Function [] [] None
                  [BindingBlock True [] [], IfNode (ThenBranch []) (ElseBranch [])] (1::nat)]\<rparr>
            :: (nat, nat, nat) Frame]
     = depth [new_frame ModuleFrame :: (nat, nat, nat) Frame] \<and>
   run_ops (Exit # example_ops) ([] :: (nat, nat, nat) Frame list) = Inl FrameStackError"
proof -
  have m: "matched example_ops"
    by (simp add: matched_def example_ops_def)
  have r: "run_ops example_ops [new_frame ModuleFrame]
     = Inr [(new_frame ModuleFrame)
              \<lparr>results := [Function [] [] None
                  [BindingBlock True [] [], IfNode (ThenBranch []) (ElseBranch [])] 1]\<rparr>]"
    by (simp add: example_ops_def enter_def exit_def finalize_def new_frame_def)
  note inst = matched_pairs_restore_depth [where 'e = nat and 't = nat and 's = nat,
      of example_ops "[new_frame ModuleFrame]"
        "[(new_frame ModuleFrame)
              \<lparr>results := [Function [] [] None
                  [BindingBlock True [] [], IfNode (ThenBranch []) (ElseBranch [])] 1]\<rparr>]"]
  have e: "run_ops (Exit # example_ops) ([] :: (nat, nat, nat) Frame list) = Inl FrameStackError"
    using inst by simp
  from inst m r e show ?thesis by simp
qed

section \<open>Properties of the pass pipeline runner\<close>

lemma in_set_drop_nth: "x \<in> set (drop k xs) \<longleftrightarrow> (\<exists>m < length xs. k \<le> m \<and> xs ! m = x)"
proof
  assume "x \<in> set (drop k xs)"
  then obtain i where i: "i < length (drop k xs)" "drop k xs ! i = x"
    by (auto simp: in_set_conv_nth)
  then have "k + i < length xs" "k \<le> k + i" "xs ! (k + i) = x"
    by simp_all
  then show "\<exists>m < length xs. k \<le> m \<and> xs ! m = x" by blast
next
  assume "\<exists>m < length xs. k \<le> m \<and> xs ! m = x"
  then obtain m where m: "m < length xs" "k \<le> m" "xs ! m = x" by blast
  then have "m - k < length (drop k xs)" "drop k xs ! (m - k) = x"
    by simp_all
  then show "x \<in> set (drop k xs)"
    by (auto simp: in_set_conv_nth)
qed

lemma pick_None: "pick cs = None \<longleftrightarrow> cs = []"
  by (simp add: pick_def)

lemma pick_Some_in: "pick cs = Some c \<Longrightarrow> c \<in> set cs"
  by (auto simp: pick_def arg_min_list_in split: if_splits)

lemma pick_Some_least: "pick cs = Some c \<Longrightarrow> c' \<in> set cs \<Longrightarrow> tie_key c \<le> tie_key c'"
proof -
  assume p: "pick cs = Some c" and c': "c' \<in> set cs"
  then have ne: "cs \<noteq> []" and c: "c = arg_min_list tie_key cs"
    by (auto simp: pick_def split: if_splits)
  from ne have "tie_key c = Min (tie_key ` set cs)"
    unfolding c by (rule f_arg_min_list_f)
  also have "\<dots> \<le> tie_key c'"
    using c' by (intro Min_le) auto
  finally show ?thesis .
qed

lemma ready_cong: "set rem = set rem' \<Longrightarrow> ready rem c = ready rem' c"
  by (simp add: ready_def)

lemma ready_iff:
  "ready rem c \<longleftrightarrow> (\<forall>d \<in> set rem. pass_name (snd d) \<notin> set (pass_required (snd c)))"
  by (auto simp: ready_def list_all_iff)

lemma topological_sort_error: "topological_sort rem = Inl e \<Longrightarrow> e = PassCycleError"
  by (induction rem arbitrary: e rule: topological_sort.induct)
    (auto split: option.splits sum.splits simp del: remove1.simps filter.simps)

lemma topological_sort_mset: "topological_sort rem = Inr order \<Longrightarrow> mset order = mset rem"
proof (induction rem arbitrary: order rule: topological_sort.induct)
  case 1
  then show ?case by simp
next
  case (2 x xs)
  from "2.prems" obtain c order' where
    p: "pick (filter (ready (x # xs)) (x # xs)) = Some c"
    and r: "topological_sort (remove1 c (x # xs)) = Inr order'"
    and o: "order = c # order'"
    by (auto split: option.splits sum.splits simp del: remove1.simps filter.simps)
  from pick_Some_in [OF p] have c: "c \<in> set (x # xs)"
    by (simp only: set_filter mem_Collect_eq)
  from c have cm: "c \<in># mset (x # xs)"
    by (simp only: set_mset_mset)
  from "2.IH" [OF p r] have "mset order' = mset (remove1 c (x # xs))" .
  then have "mset order = add_mset c (mset (x # xs) - {#c#})"
    unfolding o by (simp only: mset.simps mset_remove1)
  also have "\<dots> = mset (x # xs)"
    using cm by (rule insert_DiffM)
  finally show ?case .
qed

text \<open>
  What each step of the sort guarantees: the pass placed at \<open>k\<close> was ready with respect
  to the passes not yet placed, and first by the tie key among those that were ready.
\<close>

lemma topological_sort_steps:
  "topological_sort rem = Inr order \<Longrightarrow> k < length order \<Longrightarrow>
   ready (drop k order) (order ! k) \<and>
   (\<forall>l < length order. k < l \<and> ready (drop k order) (order ! l)
      \<longrightarrow> tie_key (order ! k) \<le> tie_key (order ! l))"
proof (induction rem arbitrary: order k rule: topological_sort.induct)
  case 1
  then show ?case by simp
next
  case (2 x xs)
  from "2.prems"(1) obtain c order' where
    p: "pick (filter (ready (x # xs)) (x # xs)) = Some c"
    and r: "topological_sort (remove1 c (x # xs)) = Inr order'"
    and o: "order = c # order'"
    by (auto split: option.splits sum.splits simp del: remove1.simps filter.simps)
  from topological_sort_mset [OF "2.prems"(1)] have "set order = set (x # xs)"
    by (rule mset_eq_setD)
  then have rc: "ready order d = ready (x # xs) d" for d
    by (rule ready_cong)
  show ?case
  proof (cases k)
    case 0
    from pick_Some_in [OF p] have "ready (x # xs) c"
      by (simp only: set_filter mem_Collect_eq)
    then have a: "ready (drop k order) (order ! k)"
      using 0 o rc by simp
    have b: "tie_key (order ! k) \<le> tie_key (order ! l)"
      if l: "l < length order" and rl: "ready (drop k order) (order ! l)" for l
    proof -
      from l have "order ! l \<in> set order" by simp
      with \<open>set order = set (x # xs)\<close> have "order ! l \<in> set (x # xs)" by simp
      moreover from rl 0 rc have "ready (x # xs) (order ! l)" by simp
      ultimately have "order ! l \<in> set (filter (ready (x # xs)) (x # xs))"
        by (simp only: set_filter mem_Collect_eq)
      from pick_Some_least [OF p this] 0 o show ?thesis by simp
    qed
    from a b show ?thesis by blast
  next
    case (Suc k')
    with "2.prems"(2) o have k': "k' < length order'" by simp
    from "2.IH" [OF p r k'] have
      a: "ready (drop k' order') (order' ! k')"
      and b: "\<forall>l < length order'. k' < l \<and> ready (drop k' order') (order' ! l)
                \<longrightarrow> tie_key (order' ! k') \<le> tie_key (order' ! l)"
      by blast+
    have c: "tie_key (order ! k) \<le> tie_key (order ! l)"
      if l: "l < length order" and kl: "k < l" and rl: "ready (drop k order) (order ! l)" for l
    proof -
      from kl Suc obtain l' where l': "l = Suc l'" by (cases l) auto
      with l kl rl Suc o have "l' < length order'" "k' < l'"
        "ready (drop k' order') (order' ! l')"
        by simp_all
      with b have "tie_key (order' ! k') \<le> tie_key (order' ! l')" by blast
      with l' Suc o show ?thesis by simp
    qed
    from a Suc o have "ready (drop k order) (order ! k)" by simp
    with c show ?thesis by blast
  qed
qed

lemma sorted_requirements_first:
  assumes "topological_sort rem = Inr order"
  shows "requirements_first order"
  unfolding requirements_first_def
proof (intro allI impI)
  fix k l
  assume k: "k < length order" and l: "l < length order"
    and req: "pass_name (snd (order ! l)) \<in> set (pass_required (snd (order ! k)))"
  from topological_sort_steps [OF assms k] have rk: "ready (drop k order) (order ! k)"
    by blast
  show "l < k"
  proof (rule ccontr)
    assume "\<not> l < k"
    then have "k \<le> l" by simp
    with l have "order ! l \<in> set (drop k order)"
      unfolding in_set_drop_nth by blast
    with rk req show False
      by (auto simp: ready_iff)
  qed
qed

lemma ready_drop_iff:
  "ready (drop k order) c \<longleftrightarrow>
   (\<forall>m < length order. k \<le> m \<longrightarrow> pass_name (snd (order ! m)) \<notin> set (pass_required (snd c)))"
  unfolding ready_iff Ball_def in_set_drop_nth by blast

lemma sorted_ties_broken:
  assumes s: "topological_sort rem = Inr order" and d: "distinct (map fst rem)"
  shows "ties_broken order"
  unfolding ties_broken_def
proof (intro allI impI)
  fix k l
  assume k: "k < length order" and l: "l < length order"
    and h: "k < l \<and> (\<forall>m < length order. k \<le> m \<longrightarrow>
              pass_name (snd (order ! m)) \<notin> set (pass_required (snd (order ! l))))"
  then have kl: "k < l" and rl: "ready (drop k order) (order ! l)"
    by (simp_all add: ready_drop_iff)
  from topological_sort_steps [OF s k] l kl rl
  have le: "tie_key (order ! k) \<le> tie_key (order ! l)" by blast
  from topological_sort_mset [OF s] have "mset (map fst order) = mset (map fst rem)"
    by simp
  with d have "distinct (map fst order)"
    by (metis mset_eq_imp_distinct_iff)
  with k l kl have "fst (order ! k) \<noteq> fst (order ! l)"
    by (metis length_map nth_eq_iff_index_eq nth_map less_irrefl)
  with le show "tie_before (order ! k) (order ! l)"
    by (auto simp: tie_before_def tie_key_def less_eq_prod_def)
qed

lemma finite_dependency_graph: "finite (dependency_graph passes)"
proof (rule finite_subset)
  show "dependency_graph passes \<subseteq> {..<length passes} \<times> {..<length passes}"
    by (auto simp: dependency_graph_def)
  show "finite ({..<length passes} \<times> {..<length passes})" by simp
qed

lemma exists_ready:
  assumes ac: "acyclic (dependency_graph passes)"
    and sub: "set rem \<subseteq> set (enumerate 0 passes)"
    and ne: "rem \<noteq> []"
  shows "\<exists>c \<in> set rem. ready rem c"
proof -
  let ?g = "dependency_graph passes"
  let ?Q = "fst ` set rem"
  from finite_dependency_graph ac have "wf ?g"
    by (rule finite_acyclic_wf)
  moreover from ne obtain x where "x \<in> ?Q"
    by (cases rem) auto
  ultimately have "\<exists>z \<in> ?Q. \<forall>y. (y, z) \<in> ?g \<longrightarrow> y \<notin> ?Q"
    unfolding wf_eq_minimal by blast
  then obtain z where z: "z \<in> ?Q" and least: "\<And>y. (y, z) \<in> ?g \<Longrightarrow> y \<notin> ?Q"
    by blast
  from z obtain p where zp: "(z, p) \<in> set rem" by auto
  with sub have "(z, p) \<in> set (enumerate 0 passes)" by blast
  then have zl: "z < length passes" and pz: "p = passes ! z"
    by (simp_all add: in_set_enumerate_eq)
  have "ready rem (z, p)"
    unfolding ready_iff
  proof
    fix d
    assume d: "d \<in> set rem"
    show "pass_name (snd d) \<notin> set (pass_required (snd (z, p)))"
    proof
      assume r: "pass_name (snd d) \<in> set (pass_required (snd (z, p)))"
      from d sub have "d \<in> set (enumerate 0 passes)" by blast
      then have dl: "fst d < length passes" and dp: "snd d = passes ! fst d"
        by (simp_all add: in_set_enumerate_eq)
      with r zl pz have "(fst d, z) \<in> ?g"
        by (simp add: dependency_graph_def)
      from least [OF this] d show False by simp
    qed
  qed
  with zp show ?thesis by blast
qed

lemma topological_sort_succeeds:
  "acyclic (dependency_graph passes) \<Longrightarrow> set rem \<subseteq> set (enumerate 0 passes) \<Longrightarrow>
   \<exists>order. topological_sort rem = Inr order"
proof (induction rem rule: topological_sort.induct)
  case 1
  then show ?case by simp
next
  case (2 x xs)
  from exists_ready [OF "2.prems"] obtain c0 where
    "c0 \<in> set (x # xs)" "ready (x # xs) c0"
    by blast
  then have "filter (ready (x # xs)) (x # xs) \<noteq> []"
    by (metis filter_empty_conv)
  then obtain c where p: "pick (filter (ready (x # xs)) (x # xs)) = Some c"
    by (metis pick_None not_Some_eq)
  have "set (remove1 c (x # xs)) \<subseteq> set (x # xs)"
    by (rule set_remove1_subset)
  with "2.prems"(2) have "set (remove1 c (x # xs)) \<subseteq> set (enumerate 0 passes)"
    by blast
  from "2.IH" [OF p "2.prems"(1) this] obtain order' where
    "topological_sort (remove1 c (x # xs)) = Inr order'"
    by blast
  with p show ?case by (simp del: remove1.simps filter.simps)
qed

lemma sorted_acyclic:
  assumes s: "topological_sort (enumerate 0 passes) = Inr order"
  shows "acyclic (dependency_graph passes)"
proof -
  let ?g = "dependency_graph passes"
  let ?n = "length passes"
  from topological_sort_mset [OF s] have so: "set order = set (enumerate 0 passes)"
    by (rule mset_eq_setD)
  have elem: "fst (order ! k) < ?n \<and> snd (order ! k) = passes ! fst (order ! k)"
    if "k < length order" for k
  proof -
    from that have "order ! k \<in> set order" by simp
    with so show ?thesis by (simp add: in_set_enumerate_eq)
  qed
  have pos: "\<exists>k < length order. fst (order ! k) = i" if "i < ?n" for i
  proof -
    from that have "(i, passes ! i) \<in> set (enumerate 0 passes)"
      by (simp add: in_set_enumerate_eq)
    with so have "(i, passes ! i) \<in> set order" by simp
    then obtain k where "k < length order" "order ! k = (i, passes ! i)"
      by (auto simp: in_set_conv_nth)
    then show ?thesis by auto
  qed
  from sorted_requirements_first [OF s] have rf: "requirements_first order" .
  have edge: "k < l"
    if e: "(i, j) \<in> ?g" and k: "k < length order" and l: "l < length order"
      and ki: "fst (order ! k) = i" and lj: "fst (order ! l) = j" for i j k l
  proof -
    from e have "pass_name (passes ! i) \<in> set (pass_required (passes ! j))"
      by (simp add: dependency_graph_def)
    with elem [OF k] elem [OF l] ki lj
    have "pass_name (snd (order ! k)) \<in> set (pass_required (snd (order ! l)))"
      by simp
    with rf k l show ?thesis
      by (simp add: requirements_first_def)
  qed
  have path: "j < ?n \<and> (\<forall>k l. k < length order \<and> l < length order \<and>
                fst (order ! k) = i \<and> fst (order ! l) = j \<longrightarrow> k < l)"
    if "(i, j) \<in> ?g\<^sup>+" for i j
    using that
  proof (induction rule: trancl_induct)
    case (base j)
    then have "j < ?n" by (simp add: dependency_graph_def)
    with edge [OF base] show ?case by blast
  next
    case (step j m)
    from step.hyps(2) have m: "m < ?n" by (simp add: dependency_graph_def)
    from step.IH have j: "j < ?n" by blast
    from pos [OF j] obtain q where q: "q < length order" "fst (order ! q) = j"
      by blast
    have "k < l" if kl: "k < length order \<and> l < length order \<and>
                fst (order ! k) = i \<and> fst (order ! l) = m" for k l
    proof -
      from step.IH kl q have "k < q" by blast
      moreover from edge [OF step.hyps(2) q(1) _ q(2)] kl have "q < l" by blast
      ultimately show ?thesis by simp
    qed
    with m show ?case by blast
  qed
  show ?thesis
    unfolding acyclic_def
  proof (intro allI notI)
    fix i
    assume c: "(i, i) \<in> ?g\<^sup>+"
    from path [OF c] have i: "i < ?n" by blast
    from pos [OF i] obtain k where "k < length order" "fst (order ! k) = i"
      by blast
    with path [OF c] have "k < k" by blast
    then show False by simp
  qed
qed

lemma has_cycle_acyclic: "has_cycle passes \<longleftrightarrow> \<not> acyclic (dependency_graph passes)"
  by (simp add: has_cycle_def acyclic_def)

lemma distinct_fst_enumerate: "distinct (map fst (enumerate n xs))"
  by (simp add: map_fst_enumerate)

text \<open>
  C1. \<open>run\<close> fails with \<open>PassDependencyError\<close> when some required name is absent from
  the provided pass set. Otherwise it fails with \<open>PassCycleError\<close> when the dependency
  graph has a cycle. Otherwise an order is resolved and the passes are applied in that
  order: the order is a permutation of the input (each pass kept with its input
  position), every pass comes after all the passes whose name it requires (a
  topological sort of the dependency graph), and ties among passes that could be placed
  are broken by ascending \<open>opt_level\<close>, then by input order.
\<close>

theorem run_resolves_order:
  "(missing_dependency (passes :: ('f, 'i) Pass list) \<longrightarrow>
      run apply_pass (module :: 'm) passes ceiling = Inl PassDependencyError) \<and>
   (\<not> missing_dependency passes \<and> has_cycle passes \<longrightarrow>
      run apply_pass module passes ceiling = Inl PassCycleError) \<and>
   (\<not> missing_dependency passes \<and> \<not> has_cycle passes \<longrightarrow>
      (\<exists>order. resolve_order passes = Inr order \<and>
         mset order = mset (enumerate 0 passes) \<and>
         requirements_first order \<and> ties_broken order \<and>
         run apply_pass module passes ceiling
           = apply_passes apply_pass
               (filter (\<lambda>p. pass_opt_level p \<le> ceiling) (map snd order)) module))"
proof (intro conjI impI)
  assume "missing_dependency passes"
  then show "run apply_pass module passes ceiling = Inl PassDependencyError"
    by (simp add: run_def resolve_order_def)
next
  assume a: "\<not> missing_dependency passes \<and> has_cycle passes"
  then have nac: "\<not> acyclic (dependency_graph passes)"
    by (simp add: has_cycle_acyclic)
  have "topological_sort (enumerate 0 passes) = Inl PassCycleError"
  proof (cases "topological_sort (enumerate 0 passes)")
    case (Inl e)
    with topological_sort_error [OF Inl] show ?thesis by simp
  next
    case (Inr order)
    from sorted_acyclic [OF Inr] nac show ?thesis by simp
  qed
  with a show "run apply_pass module passes ceiling = Inl PassCycleError"
    by (simp add: run_def resolve_order_def)
next
  assume a: "\<not> missing_dependency passes \<and> \<not> has_cycle passes"
  then have ac: "acyclic (dependency_graph passes)"
    by (simp add: has_cycle_acyclic)
  from topological_sort_succeeds [OF ac subset_refl] obtain order where
    s: "topological_sort (enumerate 0 passes) = Inr order"
    by blast
  from a s have r: "resolve_order passes = Inr order"
    by (simp add: resolve_order_def)
  moreover from topological_sort_mset [OF s] have "mset order = mset (enumerate 0 passes)" .
  moreover from sorted_requirements_first [OF s] have "requirements_first order" .
  moreover from sorted_ties_broken [OF s distinct_fst_enumerate] have "ties_broken order" .
  moreover from r have "run apply_pass module passes ceiling
           = apply_passes apply_pass
               (filter (\<lambda>p. pass_opt_level p \<le> ceiling) (map snd order)) module"
    by (simp add: run_def)
  ultimately show "\<exists>order. resolve_order passes = Inr order \<and>
         mset order = mset (enumerate 0 passes) \<and>
         requirements_first order \<and> ties_broken order \<and>
         run apply_pass module passes ceiling
           = apply_passes apply_pass
               (filter (\<lambda>p. pass_opt_level p \<le> ceiling) (map snd order)) module"
    by blast
qed

lemma example_order:
  "topological_sort (enumerate 0 [pass_B, pass_A, pass_C])
     = Inr [(2, pass_C), (1, pass_A), (0, pass_B)]"
  by (simp add: pass_A_def pass_B_def pass_C_def pick_def ready_def tie_key_def
      pass_name_def pass_opt_level_def pass_required_def less_eq_prod_def Let_def)

lemma example_cycle: "has_cycle [pass_A_cyclic, pass_B]"
proof -
  have "(0, 1) \<in> dependency_graph [pass_A_cyclic, pass_B]"
    by (simp add: dependency_graph_def pass_A_cyclic_def pass_B_def pass_name_def
        pass_required_def)
  moreover have "(1, 0) \<in> dependency_graph [pass_A_cyclic, pass_B]"
    by (simp add: dependency_graph_def pass_A_cyclic_def pass_B_def pass_name_def
        pass_required_def)
  ultimately have "(0, 0) \<in> (dependency_graph [pass_A_cyclic, pass_B])\<^sup>+"
    by (rule trancl_into_trancl [OF r_into_trancl])
  then show ?thesis
    unfolding has_cycle_def by blast
qed

theorem run_resolves_order_witness:
  "missing_dependency [pass_B_missing] \<and>
   run trace_pass [] [pass_B_missing] 3 = Inl PassDependencyError \<and>
   \<not> missing_dependency [pass_A_cyclic, pass_B] \<and> has_cycle [pass_A_cyclic, pass_B] \<and>
   run trace_pass [] [pass_A_cyclic, pass_B] 3 = Inl PassCycleError \<and>
   \<not> missing_dependency [pass_B, pass_A, pass_C] \<and> \<not> has_cycle [pass_B, pass_A, pass_C] \<and>
   resolve_order [pass_B, pass_A, pass_C] = Inr [(2, pass_C), (1, pass_A), (0, pass_B)] \<and>
   requirements_first [(2, pass_C), (1, pass_A), (0, pass_B)] \<and>
   ties_broken [(2, pass_C), (1, pass_A), (0, pass_B)] \<and>
   run trace_pass [] [pass_B, pass_A, pass_C] 3 = Inr [''C'', ''A'', ''B''] \<and>
   run trace_pass [] [pass_B, pass_A] 3 = Inr [''A'', ''B'']"
proof -
  have m1: "missing_dependency [pass_B_missing]"
    by (simp add: missing_dependency_def pass_B_missing_def pass_name_def pass_required_def)
  have m2: "\<not> missing_dependency [pass_A_cyclic, pass_B]"
    by (simp add: missing_dependency_def pass_A_cyclic_def pass_B_def pass_name_def
        pass_required_def)
  have m3: "\<not> missing_dependency [pass_B, pass_A, pass_C]"
    by (simp add: missing_dependency_def pass_A_def pass_B_def pass_C_def pass_name_def
        pass_required_def)
  have c3: "\<not> has_cycle [pass_B, pass_A, pass_C]"
    using sorted_acyclic [OF example_order] by (simp add: has_cycle_acyclic)
  have r3: "resolve_order [pass_B, pass_A, pass_C] = Inr [(2, pass_C), (1, pass_A), (0, pass_B)]"
    using m3 example_order by (simp add: resolve_order_def)
  have e1: "run trace_pass [] [pass_B_missing] 3 = Inl PassDependencyError"
    using m1 run_resolves_order [of "[pass_B_missing]" trace_pass "[]" 3] by blast
  have e2: "run trace_pass [] [pass_A_cyclic, pass_B] 3 = Inl PassCycleError"
    using m2 example_cycle run_resolves_order [of "[pass_A_cyclic, pass_B]" trace_pass "[]" 3]
    by blast
  from m3 c3 r3 run_resolves_order [of "[pass_B, pass_A, pass_C]" trace_pass "[]" 3]
  have p3: "requirements_first [(2, pass_C), (1, pass_A), (0, pass_B)]"
    and t3: "ties_broken [(2, pass_C), (1, pass_A), (0, pass_B)]"
    and x3: "run trace_pass [] [pass_B, pass_A, pass_C] 3
           = apply_passes trace_pass
               (filter (\<lambda>p. pass_opt_level p \<le> 3)
                  (map snd [(2, pass_C), (1, pass_A), (0, pass_B)])) []"
    by auto
  from x3 have v3: "run trace_pass [] [pass_B, pass_A, pass_C] 3 = Inr [''C'', ''A'', ''B'']"
    by (simp add: trace_pass_def pass_A_def pass_B_def pass_C_def pass_name_def
        pass_opt_level_def)
  have v4: "run trace_pass [] [pass_B, pass_A] 3 = Inr [''A'', ''B'']"
    by (simp add: run_def resolve_order_def missing_dependency_def trace_pass_def
        pass_A_def pass_B_def pick_def ready_def tie_key_def
        pass_name_def pass_opt_level_def pass_required_def less_eq_prod_def Let_def)
  from m1 e1 m2 example_cycle e2 m3 c3 r3 p3 t3 v3 v4 show ?thesis by blast
qed

end
